theory Spec2Isabelle
  imports Main "HOL-Library.Sublist"
begin

section \<open>Python values used by the scanners\<close>

text \<open>
  A dependency is the dict \<^verbatim>\<open>{'groupId': .., 'artifactId': .., 'version': ..}\<close>.
  The values are \<^verbatim>\<open>Element.text\<close> attributes or regex groups, hence \<^verbatim>\<open>str\<close> or
  \<^verbatim>\<open>None\<close>: a \<open>string option\<close>.
\<close>

record dependency =
  groupId :: "string option"
  artifactId :: "string option"
  version :: "string option"

text \<open>Python truthiness of a value that is \<^verbatim>\<open>None\<close> or a \<^verbatim>\<open>str\<close>.\<close>

definition truthy :: "string option \<Rightarrow> bool" where
  "truthy v = (case v of None \<Rightarrow> False | Some s \<Rightarrow> s \<noteq> [])"

section \<open>A backtracking matcher for the patterns of module \<^verbatim>\<open>re\<close>\<close>

text \<open>
  The patterns of the two scanners use literals, character classes, concatenation,
  ordered alternation, the greedy quantifiers \<^verbatim>\<open>*\<close>, \<^verbatim>\<open>+\<close>, \<^verbatim>\<open>?\<close> and capturing
  groups. \<open>rmatch r (g, s)\<close> lists, in the order in which a backtracking engine tries
  them, the ways in which \<open>r\<close> matches a prefix of \<open>s\<close>: the groups set so far and the
  rest of the input. The match the engine reports is the head of the list.
\<close>

datatype regex =
    Cls "char \<Rightarrow> bool"
  | Eps
  | Seq regex regex
  | Alt regex regex
  | Star regex
  | Grp nat regex

type_synonym groups = "nat \<Rightarrow> string option"
type_synonym mstate = "groups \<times> string"

text \<open>
  Greedy iteration. The first argument bounds the number of rounds: it is the input
  itself, and a round that consumes nothing ends the iteration, so the bound is never
  reached before the input is.
\<close>

primrec star_iter :: "string \<Rightarrow> (mstate \<Rightarrow> mstate list) \<Rightarrow> mstate \<Rightarrow> mstate list" where
  "star_iter [] m st = [st]"
| "star_iter (x # fuel) m st =
     concat (map (\<lambda>st'. if length (snd st') < length (snd st) then star_iter fuel m st' else [])
                 (m st)) @ [st]"

primrec rmatch :: "regex \<Rightarrow> mstate \<Rightarrow> mstate list" where
  "rmatch (Cls P) st = (case snd st of [] \<Rightarrow> [] | c # cs \<Rightarrow> if P c then [(fst st, cs)] else [])"
| "rmatch Eps st = [st]"
| "rmatch (Seq a b) st = concat (map (rmatch b) (rmatch a st))"
| "rmatch (Alt a b) st = rmatch a st @ rmatch b st"
| "rmatch (Star a) st = star_iter (snd st) (rmatch a) st"
| "rmatch (Grp n a) st =
     map (\<lambda>st'. ((fst st')(n \<mapsto> take (length (snd st) - length (snd st')) (snd st)), snd st'))
         (rmatch a st)"

definition Plus :: "regex \<Rightarrow> regex" where
  "Plus r = Seq r (Star r)"

definition Opt :: "regex \<Rightarrow> regex" where
  "Opt r = Alt r Eps"

definition Ch :: "char \<Rightarrow> regex" where
  "Ch c = Cls (\<lambda>x. x = c)"

primrec Lit :: "string \<Rightarrow> regex" where
  "Lit [] = Eps"
| "Lit (c # cs) = Seq (Ch c) (Lit cs)"

primrec Seqs :: "regex list \<Rightarrow> regex" where
  "Seqs [] = Eps"
| "Seqs (r # rs) = Seq r (Seqs rs)"

primrec Alts :: "regex list \<Rightarrow> regex" where
  "Alts [] = Cls (\<lambda>x. False)"
| "Alts (r # rs) = Alt r (Alts rs)"

text \<open>
  A match object: the groups, and the number of characters consumed.
  \<open>match_at r s\<close> is \<^verbatim>\<open>pattern.match\<close> at the start of \<open>s\<close>.
\<close>

definition match_at :: "regex \<Rightarrow> string \<Rightarrow> (groups \<times> nat) option" where
  "match_at r s =
     (case rmatch r (Map.empty, s) of
        [] \<Rightarrow> None
      | st # _ \<Rightarrow> Some (fst st, length s - length (snd st)))"

text \<open>\<^verbatim>\<open>re.search\<close>: the match at the leftmost position that has one.\<close>

primrec search :: "regex \<Rightarrow> string \<Rightarrow> groups option" where
  "search r [] = map_option fst (match_at r [])"
| "search r (c # cs) =
     (case match_at r (c # cs) of
        Some m \<Rightarrow> Some (fst m)
      | None \<Rightarrow> search r cs)"

text \<open>
  \<^verbatim>\<open>pattern.finditer\<close>: the matches from left to right, each search starting where the
  previous match ended. \<open>skip\<close> counts the characters of the previous match still to
  pass. None of the patterns below matches the empty string.
\<close>

primrec finditer_from :: "regex \<Rightarrow> nat \<Rightarrow> string \<Rightarrow> groups list" where
  "finditer_from r skip [] = []"
| "finditer_from r skip (c # cs) =
     (case skip of
        Suc k \<Rightarrow> finditer_from r k cs
      | 0 \<Rightarrow>
         (case match_at r (c # cs) of
            None \<Rightarrow> finditer_from r 0 cs
          | Some m \<Rightarrow> fst m # finditer_from r (snd m - 1) cs))"

definition finditer :: "regex \<Rightarrow> string \<Rightarrow> groups list" where
  "finditer r s = finditer_from r 0 s"

section \<open>Character classes\<close>

text \<open>
  Text is a list of code points below 256. \<^verbatim>\<open>\s\<close> and \<^verbatim>\<open>\w\<close> are the classes of a
  \<^verbatim>\<open>str\<close> pattern (\<^verbatim>\<open>str.isspace\<close>; \<^verbatim>\<open>str.isalnum\<close> or underscore) on that range.
\<close>

definition code :: "char \<Rightarrow> nat" where
  "code c = of_char c"

definition in_range :: "nat \<Rightarrow> nat \<Rightarrow> char \<Rightarrow> bool" where
  "in_range lo hi c = (lo \<le> code c \<and> code c \<le> hi)"

definition sq :: char where
  "sq = CHR 0x27"

definition dq :: char where
  "dq = CHR 0x22"

definition ascii_alnum :: "char \<Rightarrow> bool" where
  "ascii_alnum c = (in_range 97 122 c \<or> in_range 65 90 c \<or> in_range 48 57 c)"

definition ident_char :: "char \<Rightarrow> bool" where
  \<comment> \<open>\<^verbatim>\<open>[a-zA-Z0-9\._-]\<close>\<close>
  "ident_char c = (ascii_alnum c \<or> c = CHR ''.'' \<or> c = CHR ''_'' \<or> c = CHR ''-'')"

definition space_char :: "char \<Rightarrow> bool" where
  \<comment> \<open>\<^verbatim>\<open>\s\<close>\<close>
  "space_char c = (in_range 9 13 c \<or> in_range 28 32 c \<or> code c = 133 \<or> code c = 160)"

definition word_char :: "char \<Rightarrow> bool" where
  \<comment> \<open>\<^verbatim>\<open>\w\<close>\<close>
  "word_char c =
     (ascii_alnum c \<or> c = CHR ''_'' \<or> code c \<in> {170, 178, 179, 181, 185, 186}
      \<or> in_range 188 190 c \<or> in_range 192 214 c \<or> in_range 216 246 c \<or> in_range 248 255 c)"

definition quote_char :: "char \<Rightarrow> bool" where
  \<comment> \<open>\<^verbatim>\<open>["']\<close>\<close>
  "quote_char c = (c = dq \<or> c = sq)"

definition space_or_quote :: "char \<Rightarrow> bool" where
  \<comment> \<open>\<^verbatim>\<open>[\s"']\<close>\<close>
  "space_or_quote c = (space_char c \<or> c = dq \<or> c = sq)"

section \<open>The single-repository scanner: \<^verbatim>\<open>parse_gradle_build_file\<close>\<close>

definition keyword_set :: "string list" where
  "keyword_set = [''implementation'', ''api'', ''compileOnly'', ''runtimeOnly'',
               ''testImplementation'', ''testCompile'', ''kapt'', ''classpath'']"

definition ident :: regex where
  "ident = Plus (Cls ident_char)"

text \<open>The two alternatives of \<^verbatim>\<open>dependency_pattern\<close>, groups 1 to 3 and 4 to 6.\<close>

definition colon_triple :: regex where
  "colon_triple = Seqs
     [Alts (map Lit (keyword_set @ [''implementation(''])),
      Star (Cls space_or_quote),
      Grp 1 ident, Ch CHR '':'', Grp 2 ident, Ch CHR '':'',
      Grp 3 (Seq ident (Star (Seq (Ch CHR ''-'') (Plus (Cls word_char))))),
      Star (Cls quote_char),
      Opt (Ch CHR '')'')]"

definition named_arguments :: regex where
  "named_arguments = Seqs
     [Alts (map Lit keyword_set),
      Plus (Cls space_char), Lit ''group:'', Star (Cls space_char),
      Cls quote_char, Grp 4 ident, Cls quote_char, Ch CHR '','',
      Star (Cls space_char), Lit ''name:'', Star (Cls space_char),
      Cls quote_char, Grp 5 ident, Cls quote_char, Ch CHR '','',
      Star (Cls space_char), Lit ''version:'', Star (Cls space_char),
      Cls quote_char, Grp 6 ident, Cls quote_char]"

definition dependency_pattern :: regex where
  "dependency_pattern = Alt colon_triple named_arguments"

definition kotlin_dependency_pattern :: regex where
  "kotlin_dependency_pattern = Seqs
     [Alts (map Lit [''kotlin'', ''implementation'', ''api'', ''compileOnly'', ''runtimeOnly'',
                     ''testImplementation'']),
      Ch CHR ''('', Cls quote_char, Grp 1 ident, Ch CHR '':'', Grp 2 ident, Cls quote_char,
      Ch CHR '')'', Plus (Cls space_char), Lit ''version'', Plus (Cls space_char),
      Cls quote_char, Grp 3 ident, Cls quote_char]"

definition dep :: "string option \<Rightarrow> string option \<Rightarrow> string option \<Rightarrow> dependency" where
  "dep g a v = \<lparr>groupId = g, artifactId = a, version = v\<rparr>"

text \<open>The body of the first loop: one match of \<^verbatim>\<open>dependency_pattern\<close>.\<close>

definition dependency_of_match :: "groups \<Rightarrow> dependency list" where
  "dependency_of_match m =
     (if truthy (m 1) \<and> truthy (m 2) \<and> truthy (m 3) then [dep (m 1) (m 2) (m 3)]
      else if truthy (m 4) \<and> truthy (m 5) \<and> truthy (m 6) then [dep (m 4) (m 5) (m 6)]
      else [])"

definition kotlin_of_match :: "groups \<Rightarrow> dependency" where
  "kotlin_of_match m = dep (m 1) (m 2) (m 3)"

text \<open>What \<^verbatim>\<open>parse_gradle_build_file\<close> appends for the text \<open>content\<close> of the file.\<close>

definition gradle_build_dependencies :: "string \<Rightarrow> dependency list" where
  "gradle_build_dependencies content =
     concat (map dependency_of_match (finditer dependency_pattern content))
     @ map kotlin_of_match (finditer kotlin_dependency_pattern content)"

section \<open>The multi-repository scanner: \<^verbatim>\<open>parse_gradle_file\<close>\<close>

primrec str_in :: "string \<Rightarrow> string \<Rightarrow> bool" where
  "str_in sub [] = (sub = [])"
| "str_in sub (c # cs) = (prefix sub (c # cs) \<or> str_in sub cs)"

definition quoted_triple :: regex where
  \<comment> \<open>\<^verbatim>\<open>['\"]([^:]+):([^:]+):([^'\"]+)['\"]\<close>\<close>
  "quoted_triple = Seqs
     [Cls quote_char,
      Grp 1 (Plus (Cls (\<lambda>c. c \<noteq> CHR '':''))), Ch CHR '':'',
      Grp 2 (Plus (Cls (\<lambda>c. c \<noteq> CHR '':''))), Ch CHR '':'',
      Grp 3 (Plus (Cls (\<lambda>c. \<not> quote_char c))),
      Cls quote_char]"

text \<open>The body of the loop over the lines of the file.\<close>

definition gradle_line_dependencies :: "string \<Rightarrow> dependency list" where
  "gradle_line_dependencies line =
     (if str_in ''implementation'' line \<or> str_in ''compile'' line then
        (case search quoted_triple line of
           Some m \<Rightarrow> [dep (m 1) (m 2) (m 3)]
         | None \<Rightarrow> [])
      else [])"

text \<open>
  Iterating over a text file yields its lines, each with its newline. The file is opened
  in text mode, where every line end reads as the one character \<^verbatim>\<open>\n\<close>. The module binds
  \<^verbatim>\<open>re\<close> only when it is run as a script, which is the run modelled here.
\<close>

primrec file_lines :: "string \<Rightarrow> string \<Rightarrow> string list" where
  "file_lines acc [] = (if acc = [] then [] else [acc])"
| "file_lines acc (c # cs) =
     (if c = CHR 0x0A then (acc @ [c]) # file_lines [] cs else file_lines (acc @ [c]) cs)"

definition gradle_file_dependencies :: "string \<Rightarrow> dependency list" where
  "gradle_file_dependencies content = concat (map gradle_line_dependencies (file_lines [] content))"

section \<open>Element trees\<close>

text \<open>
  An \<^verbatim>\<open>xml.etree.ElementTree.Element\<close> as the scanners read it: the tag (with the
  namespace in braces in front), the text before the first child (\<^verbatim>\<open>None\<close> when there
  is none) and the child elements.
\<close>

datatype element = Element (el_tag: string) (el_text: "string option") (el_children: "element list")

definition mvn :: "string \<Rightarrow> string" where
  \<comment> \<open>the path \<^verbatim>\<open>mvn:name\<close> under \<^verbatim>\<open>namespace\<close>\<close>
  "mvn name = ''{http://maven.apache.org/POM/4.0.0}'' @ name"

definition find_el :: "element \<Rightarrow> string \<Rightarrow> element option" where
  \<comment> \<open>\<^verbatim>\<open>elem.find\<close>: the first child with the tag\<close>
  "find_el e t = List.find (\<lambda>c. el_tag c = t) (el_children e)"

definition findall :: "element \<Rightarrow> string \<Rightarrow> element list" where
  \<comment> \<open>\<^verbatim>\<open>elem.findall\<close>: the children with the tag, in document order\<close>
  "findall e t = filter (\<lambda>c. el_tag c = t) (el_children e)"

fun descendants :: "element \<Rightarrow> element list" where
  "descendants (Element t x cs) = concat (map (\<lambda>c. c # descendants c) cs)"

definition findall_below :: "element \<Rightarrow> string \<Rightarrow> string \<Rightarrow> element list" where
  \<comment> \<open>\<^verbatim>\<open>elem.findall(".//a/b")\<close>: the children \<open>b\<close> of the descendants \<open>a\<close>\<close>
  "findall_below e a b =
     concat (map (\<lambda>d. findall d b) (filter (\<lambda>d. el_tag d = a) (descendants e)))"

section \<open>Strings\<close>

primrec replace_from :: "string \<Rightarrow> string \<Rightarrow> nat \<Rightarrow> string \<Rightarrow> string" where
  "replace_from old new skip [] = []"
| "replace_from old new skip (c # cs) =
     (case skip of
        Suc k \<Rightarrow> replace_from old new k cs
      | 0 \<Rightarrow>
         (if prefix old (c # cs) then new @ replace_from old new (length old - 1) cs
          else c # replace_from old new 0 cs))"

definition str_replace :: "string \<Rightarrow> string \<Rightarrow> string \<Rightarrow> string" where
  \<comment> \<open>\<^verbatim>\<open>s.replace(old, new)\<close>\<close>
  "str_replace old new s =
     (if old = [] then new @ concat (map (\<lambda>c. c # new) s) else replace_from old new 0 s)"


definition os_sep :: string where
  "os_sep = ''/''"

definition os_path_join :: "string \<Rightarrow> string \<Rightarrow> string" where
  "os_path_join a b =
     (if prefix os_sep b then b
      else if a = [] \<or> suffix os_sep a then a @ b
      else a @ os_sep @ b)"

section \<open>Files and exceptions\<close>

datatype exn =
    ParseError string
  | FileNotFoundError
  | PermissionError
  | IsADirectoryError
  | UnicodeDecodeError

text \<open>
  What the scanners ask of the operating system and of the libraries:
  \<^verbatim>\<open>ET.parse(path).getroot()\<close>, the text of a file opened for reading,
  \<^verbatim>\<open>os.walk\<close> and \<^verbatim>\<open>os.path.relpath\<close>. The first two raise.
\<close>

record filesystem =
  et_parse :: "string \<Rightarrow> exn + element"
  read_text :: "string \<Rightarrow> exn + string"
  os_walk :: "string \<Rightarrow> (string \<times> string list \<times> string list) list"
  relpath :: "string \<Rightarrow> string \<Rightarrow> string"

text \<open>
  A parser returns the lines it printed and either its list of dependencies or the
  exception that left it.
\<close>

type_synonym parsed = "string list \<times> (exn + dependency list)"

section \<open>The single-repository scanner: \<^verbatim>\<open>parse_maven_pom\<close>\<close>

type_synonym properties = "string \<rightharpoonup> string option"

definition set_property :: "element \<Rightarrow> properties \<Rightarrow> properties" where
  \<comment> \<open>the body of the loop over the children of the \<^verbatim>\<open>properties\<close> element\<close>
  "set_property prop properties = properties(str_replace (mvn []) [] (el_tag prop) \<mapsto> el_text prop)"

definition properties_of :: "element \<Rightarrow> properties" where
  "properties_of root =
     (case find_el root (mvn ''properties'') of
        None \<Rightarrow> Map.empty
      | Some properties_node \<Rightarrow> fold set_property (el_children properties_node) Map.empty)"

definition parent_version_of :: "element \<Rightarrow> string option" where
  "parent_version_of root =
     (case find_el root (mvn ''parent'') of
        None \<Rightarrow> None
      | Some parent_node \<Rightarrow>
          (case find_el parent_node (mvn ''version'') of
             None \<Rightarrow> None
           | Some parent_version_node \<Rightarrow> el_text parent_version_node))"

definition resolved_version :: "properties \<Rightarrow> string option \<Rightarrow> element option \<Rightarrow> string option" where
  "resolved_version properties parent_version version_node =
     (case version_node of
        Some v \<Rightarrow>
          (case el_text v of
             Some version_text \<Rightarrow>
               (if version_text \<noteq> [] \<and> prefix ''${'' version_text \<and> suffix ''}'' version_text
                then (case properties (drop 2 (butlast version_text)) of
                        None \<Rightarrow> Some ''UNKNOWN''
                      | Some val \<Rightarrow> val)
                else Some version_text)
           | None \<Rightarrow> None)
      | None \<Rightarrow> (if truthy parent_version then parent_version else None))"

text \<open>The body of the loop over the \<^verbatim>\<open>dependency\<close> elements.\<close>

definition maven_dependency :: "properties \<Rightarrow> string option \<Rightarrow> element \<Rightarrow> dependency list" where
  "maven_dependency properties parent_version d =
     (case find_el d (mvn ''groupId'') of
        None \<Rightarrow> []
      | Some group_id \<Rightarrow>
          (case find_el d (mvn ''artifactId'') of
             None \<Rightarrow> []
           | Some artifact_id \<Rightarrow>
               (let r = resolved_version properties parent_version (find_el d (mvn ''version''))
                in [dep (el_text group_id) (el_text artifact_id)
                        (if truthy r then r else Some ''N/A'')])))"

definition maven_dependencies :: "element \<Rightarrow> dependency list" where
  "maven_dependencies root =
     (case find_el root (mvn ''dependencies'') of
        None \<Rightarrow> []
      | Some dependencies_node \<Rightarrow>
          concat (map (maven_dependency (properties_of root) (parent_version_of root))
                      (findall dependencies_node (mvn ''dependency''))))"

definition parse_maven_pom :: "filesystem \<Rightarrow> string \<Rightarrow> parsed" where
  "parse_maven_pom fs pom_path =
     (case et_parse fs pom_path of
        Inr root \<Rightarrow> ([], Inr (maven_dependencies root))
      | Inl (ParseError e) \<Rightarrow> ([''Error parsing XML for '' @ pom_path @ '': '' @ e], Inr [])
      | Inl FileNotFoundError \<Rightarrow> ([''File not found: '' @ pom_path], Inr [])
      | Inl e \<Rightarrow> ([], Inl e))"

definition parse_gradle_build_file :: "filesystem \<Rightarrow> string \<Rightarrow> parsed" where
  "parse_gradle_build_file fs build_file_path =
     (case read_text fs build_file_path of
        Inr content \<Rightarrow> ([], Inr (gradle_build_dependencies content))
      | Inl FileNotFoundError \<Rightarrow> ([''File not found: '' @ build_file_path], Inr [])
      | Inl e \<Rightarrow> ([], Inl e))"

section \<open>The multi-repository scanner: \<^verbatim>\<open>parse_pom\<close> and \<^verbatim>\<open>parse_gradle_file\<close>\<close>

definition pom_dependency :: "element \<Rightarrow> dependency list" where
  "pom_dependency d =
     (case find_el d (mvn ''groupId'') of
        None \<Rightarrow> []
      | Some group_id \<Rightarrow>
          (case find_el d (mvn ''artifactId'') of
             None \<Rightarrow> []
           | Some artifact_id \<Rightarrow>
               [dep (el_text group_id) (el_text artifact_id)
                    (case find_el d (mvn ''version'') of
                       Some v \<Rightarrow> el_text v
                     | None \<Rightarrow> Some ''N/A'')]))"

definition pom_dependencies :: "element \<Rightarrow> dependency list" where
  "pom_dependencies root =
     concat (map pom_dependency (findall_below root (mvn ''dependencies'') (mvn ''dependency'')))"

definition parse_pom :: "filesystem \<Rightarrow> string \<Rightarrow> parsed" where
  "parse_pom fs file_path =
     (case et_parse fs file_path of
        Inr root \<Rightarrow> ([], Inr (pom_dependencies root))
      | Inl (ParseError e) \<Rightarrow> ([''Error parsing XML file '' @ file_path @ '': '' @ e], Inr [])
      | Inl e \<Rightarrow> ([], Inl e))"

definition parse_gradle_file :: "filesystem \<Rightarrow> string \<Rightarrow> parsed" where
  "parse_gradle_file fs file_path =
     (case read_text fs file_path of
        Inr content \<Rightarrow> ([], Inr (gradle_file_dependencies content))
      | Inl e \<Rightarrow> ([], Inl e))"

section \<open>The single-repository scanner: \<^verbatim>\<open>generate_dependency_report\<close> and the report\<close>

text \<open>
  \<^verbatim>\<open>project_dependencies\<close> is a dict from directory to dependency list; a dict keeps
  its keys in insertion order, and an assignment to a key that is present keeps the
  key's place.
\<close>

type_synonym report = "(string \<times> dependency list) list"

primrec dict_set :: "('k \<times> 'v) list \<Rightarrow> 'k \<Rightarrow> 'v \<Rightarrow> ('k \<times> 'v) list" where
  "dict_set [] k v = [(k, v)]"
| "dict_set (p # ps) k v = (if fst p = k then (k, v) # ps else p # dict_set ps k v)"

definition is_gradle_name :: "string \<Rightarrow> bool" where
  "is_gradle_name file = (suffix ''build.gradle'' file \<or> suffix ''build.gradle.kts'' file)"

definition record_deps :: "report \<Rightarrow> string \<Rightarrow> string \<Rightarrow> parsed \<Rightarrow> string list \<times> (exn + report)" where
  \<comment> \<open>the announcement, the parse, and \<^verbatim>\<open>if deps: project_dependencies[root] = deps\<close>\<close>
  "record_deps project_dependencies root found p =
     (found # fst p,
      (case snd p of
         Inl e \<Rightarrow> Inl e
       | Inr deps \<Rightarrow> Inr (if deps \<noteq> [] then dict_set project_dependencies root deps
                          else project_dependencies)))"

text \<open>The loop over the files of one directory; it ends at the first build file.\<close>

primrec scan_files :: "filesystem \<Rightarrow> string \<Rightarrow> report \<Rightarrow> string list \<Rightarrow> string list \<times> (exn + report)" where
  "scan_files fs root project_dependencies [] = ([], Inr project_dependencies)"
| "scan_files fs root project_dependencies (file # files) =
     (if file = ''pom.xml'' then
        record_deps project_dependencies root
          (''Found Maven project: '' @ os_path_join root file)
          (parse_maven_pom fs (os_path_join root file))
      else if is_gradle_name file then
        record_deps project_dependencies root
          (''Found Gradle project: '' @ os_path_join root file)
          (parse_gradle_build_file fs (os_path_join root file))
      else scan_files fs root project_dependencies files)"

text \<open>The loop over the directories of the walk; an exception ends it.\<close>

primrec report_walk ::
  "filesystem \<Rightarrow> report \<Rightarrow> (string \<times> string list \<times> string list) list \<Rightarrow> string list \<times> (exn + report)" where
  "report_walk fs project_dependencies [] = ([], Inr project_dependencies)"
| "report_walk fs project_dependencies (entry # rest) =
     (case scan_files fs (fst entry) project_dependencies (snd (snd entry)) of
        (out, Inl e) \<Rightarrow> (out, Inl e)
      | (out, Inr pd) \<Rightarrow>
          (case report_walk fs pd rest of (out', r) \<Rightarrow> (out @ out', r)))"

definition generate_dependency_report :: "filesystem \<Rightarrow> string \<Rightarrow> string list \<times> (exn + report)" where
  "generate_dependency_report fs repo_path = report_walk fs [] (os_walk fs repo_path)"




section \<open>The multi-repository scanner: the rows of \<^verbatim>\<open>main\<close>\<close>

record row =
  Repository :: string
  File :: string
  Group_ID :: "string option"
  Artifact_ID :: "string option"
  Version :: "string option"

definition row_of :: "string \<Rightarrow> string \<Rightarrow> dependency \<Rightarrow> row" where
  "row_of repo_name file d =
     \<lparr>Repository = repo_name, File = file, Group_ID = groupId d, Artifact_ID = artifactId d,
      Version = version d\<rparr>"

text \<open>The loop over the files of one directory: every file is looked at.\<close>

primrec collect_files ::
  "filesystem \<Rightarrow> string \<Rightarrow> string \<Rightarrow> string \<Rightarrow> string list \<Rightarrow> string list \<times> (exn + row list)" where
  "collect_files fs repo_name clone_dir root [] = ([], Inr [])"
| "collect_files fs repo_name clone_dir root (file # files) =
     (let file_path = os_path_join root file;
          p = (if file = ''pom.xml'' then parse_pom fs file_path
               else if file = ''build.gradle'' then parse_gradle_file fs file_path
               else ([], Inr []))
      in case snd p of
           Inl e \<Rightarrow> (fst p, Inl e)
         | Inr deps \<Rightarrow>
             (case collect_files fs repo_name clone_dir root files of
                (out, Inl e) \<Rightarrow> (fst p @ out, Inl e)
              | (out, Inr rows) \<Rightarrow>
                  (fst p @ out,
                   Inr (map (row_of repo_name (relpath fs file_path clone_dir)) deps @ rows))))"

primrec collect_walk ::
  "filesystem \<Rightarrow> string \<Rightarrow> string \<Rightarrow> (string \<times> string list \<times> string list) list
     \<Rightarrow> string list \<times> (exn + row list)" where
  "collect_walk fs repo_name clone_dir [] = ([], Inr [])"
| "collect_walk fs repo_name clone_dir (entry # rest) =
     (case collect_files fs repo_name clone_dir (fst entry) (snd (snd entry)) of
        (out, Inl e) \<Rightarrow> (out, Inl e)
      | (out, Inr rows) \<Rightarrow>
          (case collect_walk fs repo_name clone_dir rest of
             (out', Inl e) \<Rightarrow> (out @ out', Inl e)
           | (out', Inr rows') \<Rightarrow> (out @ out', Inr (rows @ rows'))))"

definition repository_rows :: "filesystem \<Rightarrow> string \<Rightarrow> string \<Rightarrow> string list \<times> (exn + row list)" where
  \<comment> \<open>what one cloned repository adds to \<^verbatim>\<open>all_dependencies\<close>\<close>
  "repository_rows fs repo_name clone_dir =
     collect_walk fs repo_name clone_dir (os_walk fs clone_dir)"

section \<open>Sample manifests, build files and directory trees\<close>

definition leaf :: "string \<Rightarrow> string option \<Rightarrow> element" where
  "leaf name txt = Element (mvn name) txt []"

definition project_of :: "element list \<Rightarrow> element" where
  "project_of cs = Element (mvn ''project'') None cs"

definition dependency_el :: "element list \<Rightarrow> element" where
  "dependency_el version_children =
     Element (mvn ''dependency'') None
       ([leaf ''groupId'' (Some ''org.a''), leaf ''artifactId'' (Some ''a'')] @ version_children)"

definition pom_plain :: element where
  "pom_plain = project_of
     [Element (mvn ''dependencies'') None [dependency_el [leaf ''version'' (Some ''1.0'')]]]"

definition pom_property :: element where
  "pom_property = project_of
     [Element (mvn ''properties'') None [leaf ''x'' (Some ''1.2.3'')],
      Element (mvn ''dependencies'') None [dependency_el [leaf ''version'' (Some ''${x}'')]]]"

definition pom_parent :: element where
  "pom_parent = project_of
     [Element (mvn ''parent'') None [leaf ''version'' (Some ''9.9.9'')],
      Element (mvn ''dependencies'') None [dependency_el []]]"

definition pom_empty_version :: element where
  "pom_empty_version = project_of
     [Element (mvn ''dependencies'') None [dependency_el [leaf ''version'' None]]]"

definition named_line :: string where
  "named_line = ''implementation group: 'com.example', name: 'lib', version: '2.0.0'' @ [sq]"

definition triple_line :: string where
  "triple_line = ''implementation 'org.b:b:2.0'' @ [sq]"

definition two_on_a_line :: string where
  "two_on_a_line = ''implementation 'org.b:b:2.0'; implementation 'org.c:c:3.0'' @ [sq] @ [CHR 0x0A]"

definition module_line :: string where
  "module_line = ''implementation(project('' @ [dq] @ '':some-module'' @ [dq] @ ''))''"

definition nested_module_line :: string where
  "nested_module_line = ''implementation(project('' @ [dq] @ '':apis:v1:core'' @ [dq] @ ''))''"

definition sample_fs :: filesystem where
  "sample_fs =
     \<lparr>et_parse = (\<lambda>p.
        if p = ''first/pom.xml'' \<or> p = ''second/pom.xml'' then Inr pom_plain
        else if p = ''props/pom.xml'' then Inr pom_property
        else if p = ''parent/pom.xml'' then Inr pom_parent
        else if p = ''empty/pom.xml'' then Inr pom_empty_version
        else if p = ''locked/pom.xml'' then Inl PermissionError
        else Inl FileNotFoundError),
      read_text = (\<lambda>p.
        if p = ''first/build.gradle'' \<or> p = ''second/build.gradle'' then Inr triple_line
        else if p = ''named/build.gradle'' then Inr named_line
        else if p = ''two/build.gradle'' then Inr two_on_a_line
        else if p = ''module/build.gradle.kts'' then Inr module_line
        else if p = ''nested/build.gradle.kts'' then Inr nested_module_line
        else if p = ''locked/build.gradle'' then Inl PermissionError
        else Inl FileNotFoundError),
      os_walk = (\<lambda>p.
        if p = ''first'' then [(''first'', [], [''build.gradle'', ''pom.xml''])]
        else if p = ''second'' then [(''second'', [], [''README.md'', ''pom.xml'', ''build.gradle''])]
        else []),
      relpath = (\<lambda>p start. drop (Suc (length start)) p)\<rparr>"

section \<open>The report holds no empty entry\<close>








lemma sample_second:
  "generate_dependency_report sample_fs ''second'' =
     ([''Found Maven project: second/pom.xml''],
      Inr [(''second'', [dep (Some ''org.a'') (Some ''a'') (Some ''1.0'')])])"
  by code_simp


section \<open>One descriptor per directory\<close>

lemma map_of_dict_set: "map_of (dict_set pd k v) = (map_of pd)(k \<mapsto> v)"
  by (induction pd) (auto simp: fun_eq_iff)

lemma record_deps_other:
  "record_deps pd root found p = (out, Inr pd') \<Longrightarrow> k \<noteq> root \<Longrightarrow> map_of pd' k = map_of pd k"
  by (cases "snd p") (auto simp: record_deps_def map_of_dict_set split: if_splits)

lemma scan_files_other:
  "scan_files fs root pd files = (out, Inr pd') \<Longrightarrow> k \<noteq> root \<Longrightarrow> map_of pd' k = map_of pd k"
proof (induction files)
  case Nil
  then show ?case by simp
next
  case (Cons f files)
  then show ?case
    by (auto split: if_splits dest: record_deps_other)
qed

lemma report_walk_other:
  "report_walk fs pd walk = (out, Inr pd') \<Longrightarrow> k \<notin> fst ` set walk \<Longrightarrow> map_of pd' k = map_of pd k"
proof (induction walk arbitrary: pd out)
  case Nil
  then show ?case by simp
next
  case (Cons entry rest)
  obtain out1 r1 where s: "scan_files fs (fst entry) pd (snd (snd entry)) = (out1, r1)"
    by (cases "scan_files fs (fst entry) pd (snd (snd entry))")
  show ?case
  proof (cases r1)
    case (Inl e)
    with s Cons.prems(1) show ?thesis by simp
  next
    case (Inr pd1)
    from Cons.prems(2) have ne: "k \<noteq> fst entry" and rest: "k \<notin> fst ` set rest" by auto
    from s Inr ne have keep: "map_of pd1 k = map_of pd k"
      by (auto dest: scan_files_other)
    obtain out2 r2 where w: "report_walk fs pd1 rest = (out2, r2)"
      by (cases "report_walk fs pd1 rest")
    with s Inr Cons.prems(1) have "r2 = Inr pd'" by simp
    with w Cons.IH [OF _ rest] keep show ?thesis by simp
  qed
qed

lemma scan_files_pom_first:
  "\<forall>f \<in> set pre. \<not> is_gradle_name f \<Longrightarrow>
   scan_files fs root pd (pre @ ''pom.xml'' # post) =
     record_deps pd root (''Found Maven project: '' @ os_path_join root ''pom.xml'')
       (parse_maven_pom fs (os_path_join root ''pom.xml''))"
  by (induction pre) simp_all

lemma record_deps_entry:
  assumes "record_deps pd root found p = (out, Inr pd')" and "map_of pd root = None"
  shows "\<exists>deps. snd p = Inr deps \<and> map_of pd' root = (if deps = [] then None else Some deps)"
proof (cases "snd p")
  case (Inl e)
  with assms(1) show ?thesis by (simp add: record_deps_def)
next
  case (Inr deps)
  with assms show ?thesis
    by (auto simp: record_deps_def map_of_dict_set split: if_splits)
qed

lemma report_walk_entry:
  assumes "report_walk fs pd walk = (out, Inr report)"
    and "(root, dirs, pre @ ''pom.xml'' # post) \<in> set walk"
    and "distinct (map fst walk)"
    and "\<forall>f \<in> set pre. \<not> is_gradle_name f"
    and "map_of pd root = None"
  shows "\<exists>deps. snd (parse_maven_pom fs (os_path_join root ''pom.xml'')) = Inr deps
           \<and> map_of report root = (if deps = [] then None else Some deps)"
  using assms(1,2,3,5)
proof (induction walk arbitrary: pd out)
  case Nil
  then show ?case by simp
next
  case (Cons entry rest)
  obtain out1 r1 where s: "scan_files fs (fst entry) pd (snd (snd entry)) = (out1, r1)"
    by (cases "scan_files fs (fst entry) pd (snd (snd entry))")
  show ?case
  proof (cases r1)
    case (Inl e)
    with s Cons.prems(1) show ?thesis by simp
  next
    case (Inr pd1)
    obtain out2 r2 where w: "report_walk fs pd1 rest = (out2, r2)"
      by (cases "report_walk fs pd1 rest")
    with s Inr Cons.prems(1) have r2: "r2 = Inr report" by simp
    from Cons.prems(3) have fresh: "fst entry \<notin> fst ` set rest" and d: "distinct (map fst rest)"
      by auto
    show ?thesis
    proof (cases "entry = (root, dirs, pre @ ''pom.xml'' # post)")
      case True
      with s Inr assms(4)
      have "record_deps pd root (''Found Maven project: '' @ os_path_join root ''pom.xml'')
              (parse_maven_pom fs (os_path_join root ''pom.xml'')) = (out1, Inr pd1)"
        by (simp add: scan_files_pom_first)
      from record_deps_entry [OF this Cons.prems(4)]
      obtain deps where deps: "snd (parse_maven_pom fs (os_path_join root ''pom.xml'')) = Inr deps"
        and entry: "map_of pd1 root = (if deps = [] then None else Some deps)" by blast
      from True fresh have "root \<notin> fst ` set rest" by simp
      with w r2 have "map_of report root = map_of pd1 root"
        by (auto dest: report_walk_other)
      with deps entry show ?thesis by simp
    next
      case False
      with Cons.prems(2) have mem: "(root, dirs, pre @ ''pom.xml'' # post) \<in> set rest" by simp
      then have "root \<in> fst ` set rest" by force
      with fresh have "root \<noteq> fst entry" by blast
      with s Inr Cons.prems(4) have "map_of pd1 root = None"
        by (auto dest: scan_files_other)
      with Cons.IH [OF _ mem d] w r2 show ?thesis by simp
    qed
  qed
qed

text \<open>
  C1, as the code has it: when the listing of a directory has \<^verbatim>\<open>pom.xml\<close> before every
  file whose name ends in \<^verbatim>\<open>build.gradle\<close> or \<^verbatim>\<open>build.gradle.kts\<close>, the entry of that
  directory in the report of \<^verbatim>\<open>generate_dependency_report\<close> is what \<^verbatim>\<open>parse_maven_pom\<close>
  returns for the manifest, and there is no entry when that list is empty. The order of
  the listing matters: see the counterexample below.
\<close>

theorem manifest_listed_first_wins:
  assumes "generate_dependency_report fs repo_path = (out, Inr report)"
    and "(root, dirs, pre @ ''pom.xml'' # post) \<in> set (os_walk fs repo_path)"
    and "distinct (map fst (os_walk fs repo_path))"
    and "\<forall>f \<in> set pre. \<not> is_gradle_name f"
  shows "\<exists>deps. snd (parse_maven_pom fs (os_path_join root ''pom.xml'')) = Inr deps
           \<and> map_of report root = (if deps = [] then None else Some deps)"
  using assms report_walk_entry [of fs "[]" "os_walk fs repo_path" out report root dirs pre post]
  by (simp add: generate_dependency_report_def)

lemma sample_second_walk:
  "os_walk sample_fs ''second'' = [(''second'', [], [''README.md''] @ ''pom.xml'' # [''build.gradle''])]"
  by (simp add: sample_fs_def)

lemma sample_second_pre: "\<forall>f \<in> set [''README.md'']. \<not> is_gradle_name f"
  by (simp add: is_gradle_name_def suffix_def)

theorem manifest_listed_first_wins_witness:
  "generate_dependency_report sample_fs ''second'' =
     ([''Found Maven project: second/pom.xml''],
      Inr [(''second'', [dep (Some ''org.a'') (Some ''a'') (Some ''1.0'')])])
   \<and> (''second'', [], [''README.md''] @ ''pom.xml'' # [''build.gradle'']) \<in> set (os_walk sample_fs ''second'')
   \<and> distinct (map fst (os_walk sample_fs ''second''))
   \<and> \<not> is_gradle_name ''README.md''
   \<and> (\<exists>deps. snd (parse_maven_pom sample_fs (os_path_join ''second'' ''pom.xml'')) = Inr deps
         \<and> map_of [(''second'', [dep (Some ''org.a'') (Some ''a'') (Some ''1.0'')])] ''second''
             = (if deps = [] then None else Some deps))"
proof -
  have mem: "(''second'', [], [''README.md''] @ ''pom.xml'' # [''build.gradle'']) \<in> set (os_walk sample_fs ''second'')"
    by (simp add: sample_second_walk)
  have dist: "distinct (map fst (os_walk sample_fs ''second''))"
    by (simp add: sample_second_walk)
  from manifest_listed_first_wins [OF sample_second mem dist sample_second_pre]
  show ?thesis using sample_second mem dist sample_second_pre by simp
qed

text \<open>
  With \<^verbatim>\<open>build.gradle\<close> listed before \<^verbatim>\<open>pom.xml\<close> the report holds the dependency of the
  build file, not the one of the manifest; and the multi-repository scanner, whose loop
  has no \<^verbatim>\<open>break\<close>, keeps the rows of both files.
\<close>

theorem build_file_listed_first_counterexample:
  "generate_dependency_report sample_fs ''first'' =
     ([''Found Gradle project: first/build.gradle''],
      Inr [(''first'', [dep (Some ''org.b'') (Some ''b'') (Some ''2.0'')])])
   \<and> os_walk sample_fs ''first'' = [(''first'', [], [''build.gradle'', ''pom.xml''])]
   \<and> parse_maven_pom sample_fs ''first/pom.xml'' = ([], Inr [dep (Some ''org.a'') (Some ''a'') (Some ''1.0'')])
   \<and> repository_rows sample_fs ''second'' ''second'' =
       ([], Inr [row_of ''second'' ''pom.xml'' (dep (Some ''org.a'') (Some ''a'') (Some ''1.0'')),
                 row_of ''second'' ''build.gradle'' (dep (Some ''org.b'') (Some ''b'') (Some ''2.0''))])"
  by code_simp

section \<open>The version of a record\<close>

text \<open>
  C2 at a manifest whose dependency has a \<^verbatim>\<open>version\<close> element without text:
  \<^verbatim>\<open>parse_pom\<close> returns the record with the version \<^verbatim>\<open>None\<close>.
\<close>

theorem empty_version_is_None:
  "parse_pom sample_fs ''empty/pom.xml'' = ([], Inr [dep (Some ''org.a'') (Some ''a'') None])"
  by code_simp

text \<open>\<^verbatim>\<open>parse_maven_pom\<close> falls back to \<^verbatim>\<open>N/A\<close> there, and always returns a version that is a string and not empty.\<close>

lemma empty_version_maven:
  "parse_maven_pom sample_fs ''empty/pom.xml'' = ([], Inr [dep (Some ''org.a'') (Some ''a'') (Some ''N/A'')])"
  by code_simp

lemma maven_dependency_version:
  "d \<in> set (maven_dependency properties parent_version e) \<Longrightarrow> truthy (version d)"
  by (auto simp: maven_dependency_def dep_def truthy_def Let_def split: option.splits if_splits)

lemma maven_version_populated:
  "d \<in> set (maven_dependencies root) \<Longrightarrow> truthy (version d)"
  by (auto simp: maven_dependencies_def split: option.splits dest: maven_dependency_version)

section \<open>Files that cannot be read\<close>

text \<open>
  C3, as the code has it: for a path that does not exist, \<^verbatim>\<open>parse_maven_pom\<close> and
  \<^verbatim>\<open>parse_gradle_build_file\<close> print \<^verbatim>\<open>File not found\<close> with the path and return the
  empty list.
\<close>

theorem missing_file_contained:
  "(et_parse fs path = Inl FileNotFoundError \<longrightarrow>
      parse_maven_pom fs path = ([''File not found: '' @ path], Inr []))
   \<and> (read_text fs path = Inl FileNotFoundError \<longrightarrow>
      parse_gradle_build_file fs path = ([''File not found: '' @ path], Inr []))"
  by (simp add: parse_maven_pom_def parse_gradle_build_file_def)

lemma sample_missing:
  "et_parse sample_fs ''nowhere/pom.xml'' = Inl FileNotFoundError
   \<and> read_text sample_fs ''nowhere/pom.xml'' = Inl FileNotFoundError"
  by (simp add: sample_fs_def)

theorem missing_file_contained_witness:
  "et_parse sample_fs ''nowhere/pom.xml'' = Inl FileNotFoundError
   \<and> read_text sample_fs ''nowhere/pom.xml'' = Inl FileNotFoundError
   \<and> parse_maven_pom sample_fs ''nowhere/pom.xml'' = ([''File not found: nowhere/pom.xml''], Inr [])
   \<and> parse_gradle_build_file sample_fs ''nowhere/pom.xml'' = ([''File not found: nowhere/pom.xml''], Inr [])"
  using missing_file_contained [of sample_fs "''nowhere/pom.xml''"] sample_missing by simp

text \<open>
  A \<^verbatim>\<open>PermissionError\<close> leaves both parsers of the single-repository scanner, and a
  \<^verbatim>\<open>FileNotFoundError\<close> leaves both parsers of the multi-repository scanner.
\<close>

theorem unreadable_file_counterexample:
  "parse_maven_pom sample_fs ''locked/pom.xml'' = ([], Inl PermissionError)
   \<and> parse_gradle_build_file sample_fs ''locked/build.gradle'' = ([], Inl PermissionError)
   \<and> parse_pom sample_fs ''nowhere/pom.xml'' = ([], Inl FileNotFoundError)
   \<and> parse_gradle_file sample_fs ''nowhere/build.gradle'' = ([], Inl FileNotFoundError)"
  by code_simp

section \<open>Property references and the version of the parent\<close>

lemma properties_of_fold:
  "find_el root (mvn ''properties'') = Some node \<Longrightarrow>
   properties_of root = fold set_property (el_children node) Map.empty"
  by (simp add: properties_of_def)

lemma fold_set_property_other:
  "\<forall>e \<in> set es. str_replace (mvn []) [] (el_tag e) \<noteq> x \<Longrightarrow> fold set_property es m x = m x"
  by (induction es arbitrary: m) (auto simp: set_property_def)

lemma fold_set_property_last:
  assumes "\<forall>e \<in> set after. str_replace (mvn []) [] (el_tag e) \<noteq> str_replace (mvn []) [] (el_tag entry)"
  shows "fold set_property (before @ entry # after) m (str_replace (mvn []) [] (el_tag entry))
           = Some (el_text entry)"
  using fold_set_property_other [OF assms] by (simp add: set_property_def)

lemma reference_shape:
  "prefix ''${'' (''${'' @ x @ ''}'') \<and> suffix ''}'' (''${'' @ x @ ''}'')
   \<and> drop 2 (butlast (''${'' @ x @ ''}'')) = x"
proof -
  have "suffix ''}'' ((''${'' @ x) @ ''}'')" by (rule suffixI) simp
  moreover have "butlast ((''${'' @ x) @ ''}'') = ''${'' @ x" by (rule butlast_snoc)
  ultimately show ?thesis by simp
qed

lemma resolved_reference:
  assumes "properties x = Some (Some val)" and "el_text v = Some (''${'' @ x @ ''}'')"
  shows "resolved_version properties parent_version (Some v) = Some val"
  using assms reference_shape [of x] by (simp add: resolved_version_def)

lemma maven_dependency_in_result:
  assumes "et_parse fs pom_path = Inr root"
    and "find_el root (mvn ''dependencies'') = Some dependencies_node"
    and "d \<in> set (findall dependencies_node (mvn ''dependency''))"
    and "maven_dependency (properties_of root) (parent_version_of root) d = [r]"
  shows "\<exists>deps. parse_maven_pom fs pom_path = ([], Inr deps) \<and> r \<in> set deps"
  using assms by (auto simp: parse_maven_pom_def maven_dependencies_def intro!: bexI [of _ d])

text \<open>
  C4, as the code has it: when the \<^verbatim>\<open>properties\<close> element of the root has an entry
  \<open>x\<close> with the text \<open>val\<close> (not empty, and the last entry of that name), a dependency
  of the \<^verbatim>\<open>dependencies\<close> element of the root with a group, an artifact and the version
  text \<^verbatim>\<open>${x}\<close> gives, in \<^verbatim>\<open>parse_maven_pom\<close>, the record with the version \<open>val\<close>;
  so for \<open>val\<close> = \<^verbatim>\<open>1.2.3\<close>.
\<close>

theorem property_reference_resolved:
  assumes "et_parse fs pom_path = Inr root"
    and "find_el root (mvn ''properties'') = Some properties_node"
    and "el_children properties_node = before @ entry # after"
    and "str_replace (mvn []) [] (el_tag entry) = x"
    and "el_text entry = Some val" and "val \<noteq> []"
    and "\<forall>e \<in> set after. str_replace (mvn []) [] (el_tag e) \<noteq> x"
    and "find_el root (mvn ''dependencies'') = Some dependencies_node"
    and "d \<in> set (findall dependencies_node (mvn ''dependency''))"
    and "find_el d (mvn ''groupId'') = Some group_id"
    and "find_el d (mvn ''artifactId'') = Some artifact_id"
    and "find_el d (mvn ''version'') = Some v"
    and "el_text v = Some (''${'' @ x @ ''}'')"
  shows "maven_dependency (properties_of root) (parent_version_of root) d
           = [dep (el_text group_id) (el_text artifact_id) (Some val)]
         \<and> (\<exists>deps. parse_maven_pom fs pom_path = ([], Inr deps)
               \<and> dep (el_text group_id) (el_text artifact_id) (Some val) \<in> set deps)"
proof -
  have "properties_of root x = Some (Some val)"
    using assms(3,4,5,7) fold_set_property_last [of after entry before Map.empty]
    by (simp add: properties_of_fold [OF assms(2)])
  then have "resolved_version (properties_of root) (parent_version_of root) (Some v) = Some val"
    using assms(13) by (rule resolved_reference)
  then have one: "maven_dependency (properties_of root) (parent_version_of root) d
                    = [dep (el_text group_id) (el_text artifact_id) (Some val)]"
    using assms(6,10,11,12) by (simp add: maven_dependency_def truthy_def)
  from maven_dependency_in_result [OF assms(1,8,9) one] one show ?thesis by simp
qed

theorem property_reference_resolved_witness:
  "maven_dependency (properties_of pom_property) (parent_version_of pom_property)
     (dependency_el [leaf ''version'' (Some ''${x}'')])
     = [dep (Some ''org.a'') (Some ''a'') (Some ''1.2.3'')]
   \<and> (\<exists>deps. parse_maven_pom sample_fs ''props/pom.xml'' = ([], Inr deps)
         \<and> dep (Some ''org.a'') (Some ''a'') (Some ''1.2.3'') \<in> set deps)"
proof -
  let ?props = "Element (mvn ''properties'') None [leaf ''x'' (Some ''1.2.3'')]"
  let ?d = "dependency_el [leaf ''version'' (Some ''${x}'')]"
  let ?deps = "Element (mvn ''dependencies'') None [?d]"
  have h1: "et_parse sample_fs ''props/pom.xml'' = Inr pom_property"
    by (simp add: sample_fs_def)
  have h2: "find_el pom_property (mvn ''properties'') = Some ?props"
    by (simp add: find_el_def pom_property_def project_of_def)
  have h3: "el_children ?props = [] @ leaf ''x'' (Some ''1.2.3'') # []"
    by simp
  have h4: "str_replace (mvn []) [] (el_tag (leaf ''x'' (Some ''1.2.3''))) = ''x''"
    by code_simp
  have h5: "el_text (leaf ''x'' (Some ''1.2.3'')) = Some ''1.2.3''"
    by (simp add: leaf_def)
  have h6: "''1.2.3'' \<noteq> []"
    by simp
  have h7: "\<forall>e \<in> set []. str_replace (mvn []) [] (el_tag e) \<noteq> ''x''"
    by simp
  have h8: "find_el pom_property (mvn ''dependencies'') = Some ?deps"
    by (simp add: find_el_def pom_property_def project_of_def mvn_def)
  have h9: "?d \<in> set (findall ?deps (mvn ''dependency''))"
    by (simp add: findall_def dependency_el_def)
  have h10: "find_el ?d (mvn ''groupId'') = Some (leaf ''groupId'' (Some ''org.a''))"
    by (simp add: find_el_def dependency_el_def leaf_def)
  have h11: "find_el ?d (mvn ''artifactId'') = Some (leaf ''artifactId'' (Some ''a''))"
    by (simp add: find_el_def dependency_el_def leaf_def mvn_def)
  have h12: "find_el ?d (mvn ''version'') = Some (leaf ''version'' (Some ''${x}''))"
    by (simp add: find_el_def dependency_el_def leaf_def mvn_def)
  have h13: "el_text (leaf ''version'' (Some ''${x}'')) = Some (''${'' @ ''x'' @ ''}'')"
    by (simp add: leaf_def)
  from property_reference_resolved [OF h1 h2 h3 h4 h5 h6 h7 h8 h9 h10 h11 h12 h13]
  show ?thesis by (simp add: leaf_def)
qed

text \<open>\<^verbatim>\<open>parse_pom\<close> has no properties table: it returns the reference as it is written.\<close>

theorem property_reference_counterexample:
  "parse_pom sample_fs ''props/pom.xml'' = ([], Inr [dep (Some ''org.a'') (Some ''a'') (Some ''${x}'')])
   \<and> version (dep (Some ''org.a'') (Some ''a'') (Some ''${x}'')) \<noteq> Some ''1.2.3''"
  by code_simp

text \<open>
  C5, as the code has it: when the \<^verbatim>\<open>parent\<close> element of the root has a \<^verbatim>\<open>version\<close>
  with the text \<open>val\<close> (not empty), a dependency with a group and an artifact and no
  \<^verbatim>\<open>version\<close> element gives, in \<^verbatim>\<open>parse_maven_pom\<close>, the record with the version
  \<open>val\<close>; so for \<open>val\<close> = \<^verbatim>\<open>9.9.9\<close>.
\<close>

theorem parent_version_inherited:
  assumes "et_parse fs pom_path = Inr root"
    and "find_el root (mvn ''parent'') = Some parent_node"
    and "find_el parent_node (mvn ''version'') = Some parent_version_node"
    and "el_text parent_version_node = Some val" and "val \<noteq> []"
    and "find_el root (mvn ''dependencies'') = Some dependencies_node"
    and "d \<in> set (findall dependencies_node (mvn ''dependency''))"
    and "find_el d (mvn ''groupId'') = Some group_id"
    and "find_el d (mvn ''artifactId'') = Some artifact_id"
    and "find_el d (mvn ''version'') = None"
  shows "maven_dependency (properties_of root) (parent_version_of root) d
           = [dep (el_text group_id) (el_text artifact_id) (Some val)]
         \<and> (\<exists>deps. parse_maven_pom fs pom_path = ([], Inr deps)
               \<and> dep (el_text group_id) (el_text artifact_id) (Some val) \<in> set deps)"
proof -
  have "parent_version_of root = Some val"
    using assms(2,3,4) by (simp add: parent_version_of_def)
  then have one: "maven_dependency (properties_of root) (parent_version_of root) d
                    = [dep (el_text group_id) (el_text artifact_id) (Some val)]"
    using assms(5,8,9,10) by (simp add: maven_dependency_def resolved_version_def truthy_def)
  from maven_dependency_in_result [OF assms(1,6,7) one] one show ?thesis by simp
qed

theorem parent_version_inherited_witness:
  "maven_dependency (properties_of pom_parent) (parent_version_of pom_parent) (dependency_el [])
     = [dep (Some ''org.a'') (Some ''a'') (Some ''9.9.9'')]
   \<and> (\<exists>deps. parse_maven_pom sample_fs ''parent/pom.xml'' = ([], Inr deps)
         \<and> dep (Some ''org.a'') (Some ''a'') (Some ''9.9.9'') \<in> set deps)"
proof -
  let ?parent = "Element (mvn ''parent'') None [leaf ''version'' (Some ''9.9.9'')]"
  let ?d = "dependency_el []"
  let ?deps = "Element (mvn ''dependencies'') None [?d]"
  have h1: "et_parse sample_fs ''parent/pom.xml'' = Inr pom_parent"
    by (simp add: sample_fs_def)
  have h2: "find_el pom_parent (mvn ''parent'') = Some ?parent"
    by (simp add: find_el_def pom_parent_def project_of_def)
  have h3: "find_el ?parent (mvn ''version'') = Some (leaf ''version'' (Some ''9.9.9''))"
    by (simp add: find_el_def leaf_def)
  have h4: "el_text (leaf ''version'' (Some ''9.9.9'')) = Some ''9.9.9''"
    by (simp add: leaf_def)
  have h5: "''9.9.9'' \<noteq> []"
    by simp
  have h6: "find_el pom_parent (mvn ''dependencies'') = Some ?deps"
    by (simp add: find_el_def pom_parent_def project_of_def mvn_def)
  have h7: "?d \<in> set (findall ?deps (mvn ''dependency''))"
    by (simp add: findall_def dependency_el_def)
  have h8: "find_el ?d (mvn ''groupId'') = Some (leaf ''groupId'' (Some ''org.a''))"
    by (simp add: find_el_def dependency_el_def leaf_def)
  have h9: "find_el ?d (mvn ''artifactId'') = Some (leaf ''artifactId'' (Some ''a''))"
    by (simp add: find_el_def dependency_el_def leaf_def mvn_def)
  have h10: "find_el ?d (mvn ''version'') = None"
    by (simp add: find_el_def dependency_el_def leaf_def mvn_def)
  from parent_version_inherited [OF h1 h2 h3 h4 h5 h6 h7 h8 h9 h10]
  show ?thesis by (simp add: leaf_def)
qed

text \<open>\<^verbatim>\<open>parse_pom\<close> does not read the parent: it returns \<^verbatim>\<open>N/A\<close>.\<close>

theorem parent_version_counterexample:
  "parse_pom sample_fs ''parent/pom.xml'' = ([], Inr [dep (Some ''org.a'') (Some ''a'') (Some ''N/A'')])
   \<and> version (dep (Some ''org.a'') (Some ''a'') (Some ''N/A'')) \<noteq> Some ''9.9.9''"
  by code_simp

section \<open>The named-argument form\<close>

lemma named_line_build:
  "gradle_build_dependencies named_line = [dep (Some ''com.example'') (Some ''lib'') (Some ''2.0.0'')]"
  by code_simp

text \<open>
  C6, as the code has it: for a build file whose text is
  \<^verbatim>\<open>implementation group: 'com.example', name: 'lib', version: '2.0.0'\<close>,
  \<^verbatim>\<open>parse_gradle_build_file\<close> returns exactly the record of \<^verbatim>\<open>com.example\<close>, \<^verbatim>\<open>lib\<close>
  and \<^verbatim>\<open>2.0.0\<close>.
\<close>

theorem named_arguments_record:
  "read_text fs build_file_path = Inr named_line \<Longrightarrow>
   parse_gradle_build_file fs build_file_path =
     ([], Inr [dep (Some ''com.example'') (Some ''lib'') (Some ''2.0.0'')])"
  by (simp add: parse_gradle_build_file_def named_line_build)

lemma sample_named: "read_text sample_fs ''named/build.gradle'' = Inr named_line"
  by (simp add: sample_fs_def)

theorem named_arguments_record_witness:
  "read_text sample_fs ''named/build.gradle'' = Inr named_line
   \<and> parse_gradle_build_file sample_fs ''named/build.gradle'' =
       ([], Inr [dep (Some ''com.example'') (Some ''lib'') (Some ''2.0.0'')])"
  using named_arguments_record [OF sample_named] sample_named by simp

text \<open>
  \<^verbatim>\<open>parse_gradle_file\<close> knows the quoted form with two colons only; on this text its
  pattern runs from the first quote over the three colons of the argument names.
\<close>

theorem named_arguments_counterexample:
  "parse_gradle_file sample_fs ''named/build.gradle'' =
     ([], Inr [dep (Some (''com.example'' @ [sq] @ '', name''))
                   (Some ('' '' @ [sq] @ ''lib'' @ [sq] @ '', version''))
                   (Some '' '')])
   \<and> dep (Some (''com.example'' @ [sq] @ '', name''))
          (Some ('' '' @ [sq] @ ''lib'' @ [sq] @ '', version'')) (Some '' '')
       \<noteq> dep (Some ''com.example'') (Some ''lib'') (Some ''2.0.0'')"
  by code_simp

section \<open>References to modules of the repository\<close>

text \<open>
  C7 at the line \<^verbatim>\<open>implementation(project(":apis:v1:core"))\<close>, a reference to a module
  of the repository: \<^verbatim>\<open>parse_gradle_build_file\<close> finds the keyword \<^verbatim>\<open>api\<close> inside the
  module path and returns a record.
\<close>

theorem nested_module_recorded:
  "parse_gradle_build_file sample_fs ''nested/build.gradle.kts'' =
     ([], Inr [dep (Some ''s'') (Some ''v1'') (Some ''core'')])"
  by code_simp

text \<open>The line of the comment in the source, with a module path of one segment, gives no record.\<close>

lemma module_line_ignored:
  "gradle_build_dependencies module_line = [] \<and> gradle_file_dependencies module_line = []"
  by code_simp

section \<open>One record per line\<close>

text \<open>
  \<^verbatim>\<open>re.search\<close> returns the match at the leftmost position that has one, and returns
  nothing only when no position has one.
\<close>

lemma search_leftmost:
  "search r s = Some g \<Longrightarrow>
   \<exists>k n. k \<le> length s \<and> match_at r (drop k s) = Some (g, n)
         \<and> (\<forall>j<k. match_at r (drop j s) = None)"
proof (induction s)
  case Nil
  then obtain m where "match_at r [] = Some m" and "fst m = g" by auto
  then have "match_at r (drop 0 []) = Some (g, snd m)" by auto
  then show ?case by auto
next
  case (Cons c cs)
  show ?case
  proof (cases "match_at r (c # cs)")
    case (Some m)
    with Cons.prems have "match_at r (drop 0 (c # cs)) = Some (g, snd m)" by auto
    then show ?thesis by (intro exI [of _ 0] exI [of _ "snd m"]) simp
  next
    case None
    with Cons.prems have "search r cs = Some g" by simp
    from Cons.IH [OF this] obtain k n where k: "k \<le> length cs"
      and m: "match_at r (drop k cs) = Some (g, n)"
      and e: "\<forall>j<k. match_at r (drop j cs) = None" by blast
    have "\<forall>j<Suc k. match_at r (drop j (c # cs)) = None"
    proof (intro allI impI)
      fix j assume "j < Suc k"
      then show "match_at r (drop j (c # cs)) = None"
        using None e by (cases j) simp_all
    qed
    with k m show ?thesis by (intro exI [of _ "Suc k"] exI [of _ n]) simp
  qed
qed

lemma search_none:
  "search r s = None \<Longrightarrow> k \<le> length s \<Longrightarrow> match_at r (drop k s) = None"
proof (induction s arbitrary: k)
  case Nil
  then show ?case by simp
next
  case (Cons c cs)
  from Cons.prems(1) have here: "match_at r (c # cs) = None" and rest: "search r cs = None"
    by (auto split: option.splits)
  show ?case
  proof (cases k)
    case 0
    with here show ?thesis by simp
  next
    case (Suc k')
    with Cons.prems(2) Cons.IH [OF rest, of k'] show ?thesis by simp
  qed
qed

lemma concat_length_le:
  "(\<And>x. length (f x) \<le> 1) \<Longrightarrow> length (concat (map f xs)) \<le> length xs"
proof (induction xs)
  case Nil
  then show ?case by simp
next
  case (Cons x xs)
  have "length (f x) \<le> 1" by (rule Cons.prems)
  moreover have "length (concat (map f xs)) \<le> length xs"
    using Cons.IH Cons.prems by simp
  ultimately show ?case by simp
qed

text \<open>
  C10: \<^verbatim>\<open>parse_gradle_file\<close> appends at most one record for a line, so it returns at most
  as many records as the file has lines, and its result is the records of the lines in
  order. A record of a line is the one of the first match of the pattern on that line:
  the line has one of the two keywords, the pattern matches at some position and at no
  position before it, and the record holds the three groups of that match. A line with
  a keyword and a match at any position does give a record.
\<close>

theorem one_record_per_line:
  "length (gradle_line_dependencies line) \<le> 1
   \<and> length (gradle_file_dependencies content) \<le> length (file_lines [] content)
   \<and> gradle_file_dependencies content
       = concat (map gradle_line_dependencies (file_lines [] content))
   \<and> (\<forall>d \<in> set (gradle_line_dependencies line).
         (str_in ''implementation'' line \<or> str_in ''compile'' line)
         \<and> (\<exists>k m n. k \<le> length line
               \<and> match_at quoted_triple (drop k line) = Some (m, n)
               \<and> (\<forall>j<k. match_at quoted_triple (drop j line) = None)
               \<and> d = dep (m 1) (m 2) (m 3)))
   \<and> ((str_in ''implementation'' line \<or> str_in ''compile'' line)
        \<and> (\<exists>k \<le> length line. match_at quoted_triple (drop k line) \<noteq> None)
        \<longrightarrow> gradle_line_dependencies line \<noteq> [])"
proof -
  have one: "length (gradle_line_dependencies l) \<le> 1" for l
    by (simp add: gradle_line_dependencies_def split: option.split)
  then have "length (concat (map gradle_line_dependencies (file_lines [] content)))
               \<le> length (file_lines [] content)"
    by (rule concat_length_le)
  then have bound: "length (gradle_file_dependencies content) \<le> length (file_lines [] content)"
    by (simp add: gradle_file_dependencies_def)
  have first: "(str_in ''implementation'' line \<or> str_in ''compile'' line)
         \<and> (\<exists>k m n. k \<le> length line
               \<and> match_at quoted_triple (drop k line) = Some (m, n)
               \<and> (\<forall>j<k. match_at quoted_triple (drop j line) = None)
               \<and> d = dep (m 1) (m 2) (m 3))"
    if mem: "d \<in> set (gradle_line_dependencies line)" for d
  proof -
    have kw: "str_in ''implementation'' line \<or> str_in ''compile'' line"
    proof (rule ccontr)
      assume "\<not> (str_in ''implementation'' line \<or> str_in ''compile'' line)"
      then have "gradle_line_dependencies line = []"
        unfolding gradle_line_dependencies_def by (rule if_not_P)
      with mem show False by simp
    qed
    then have unfolded: "gradle_line_dependencies line =
        (case search quoted_triple line of Some m \<Rightarrow> [dep (m 1) (m 2) (m 3)] | None \<Rightarrow> [])"
      unfolding gradle_line_dependencies_def by (rule if_P)
    obtain m where s: "search quoted_triple line = Some m"
      and d: "d = dep (m 1) (m 2) (m 3)"
    proof (cases "search quoted_triple line")
      case None
      with unfolded mem show ?thesis by simp
    next
      case (Some m)
      with unfolded mem have "d = dep (m 1) (m 2) (m 3)" by simp
      with Some show ?thesis by (rule that)
    qed
    from search_leftmost [OF s] d kw show ?thesis by blast
  qed
  have some: "gradle_line_dependencies line \<noteq> []"
    if kw: "str_in ''implementation'' line \<or> str_in ''compile'' line"
      and ex: "\<exists>k \<le> length line. match_at quoted_triple (drop k line) \<noteq> None"
  proof (cases "search quoted_triple line")
    case None
    from ex obtain k where k: "k \<le> length line"
      and m: "match_at quoted_triple (drop k line) \<noteq> None" by (elim exE conjE)
    from m search_none [OF None k] show ?thesis by (rule notE)
  next
    case (Some m)
    have "gradle_line_dependencies line =
        (case search quoted_triple line of Some m \<Rightarrow> [dep (m 1) (m 2) (m 3)] | None \<Rightarrow> [])"
      unfolding gradle_line_dependencies_def using kw by (rule if_P)
    with Some show ?thesis by simp
  qed
  have eq: "gradle_file_dependencies content
              = concat (map gradle_line_dependencies (file_lines [] content))"
    by (simp add: gradle_file_dependencies_def)
  have all: "\<forall>d \<in> set (gradle_line_dependencies line).
         (str_in ''implementation'' line \<or> str_in ''compile'' line)
         \<and> (\<exists>k m n. k \<le> length line
               \<and> match_at quoted_triple (drop k line) = Some (m, n)
               \<and> (\<forall>j<k. match_at quoted_triple (drop j line) = None)
               \<and> d = dep (m 1) (m 2) (m 3))"
    using first by (rule ballI)
  have imp: "(str_in ''implementation'' line \<or> str_in ''compile'' line)
        \<and> (\<exists>k \<le> length line. match_at quoted_triple (drop k line) \<noteq> None)
        \<longrightarrow> gradle_line_dependencies line \<noteq> []"
  proof
    assume h: "(str_in ''implementation'' line \<or> str_in ''compile'' line)
        \<and> (\<exists>k \<le> length line. match_at quoted_triple (drop k line) \<noteq> None)"
    from some [OF conjunct1 [OF h] conjunct2 [OF h]]
    show "gradle_line_dependencies line \<noteq> []" .
  qed
  show ?thesis
    using one [of line] bound eq all imp by (intro conjI)
qed

lemma two_on_a_line_first:
  "gradle_line_dependencies two_on_a_line = [dep (Some ''org.b'') (Some ''b'') (Some ''2.0'')]"
  by code_simp

lemma two_on_a_line_keyword: "str_in ''implementation'' two_on_a_line"
  by code_simp

lemma two_on_a_line_second_match:
  "map_option snd (match_at quoted_triple (drop 45 two_on_a_line)) = Some 13"
  by code_simp

text \<open>
  A line with two declarations: the pattern also matches at the second one (position
  45), and the record is the one of the first.
\<close>

theorem one_record_per_line_witness:
  "gradle_line_dependencies two_on_a_line = [dep (Some ''org.b'') (Some ''b'') (Some ''2.0'')]
   \<and> str_in ''implementation'' two_on_a_line
   \<and> map_option snd (match_at quoted_triple (drop 45 two_on_a_line)) = Some 13
   \<and> length (gradle_line_dependencies two_on_a_line) \<le> 1
   \<and> length (gradle_file_dependencies two_on_a_line) \<le> length (file_lines [] two_on_a_line)
   \<and> gradle_line_dependencies two_on_a_line \<noteq> []
   \<and> (\<exists>k m n. k \<le> length two_on_a_line
         \<and> match_at quoted_triple (drop k two_on_a_line) = Some (m, n)
         \<and> dep (Some ''org.b'') (Some ''b'') (Some ''2.0'') = dep (m 1) (m 2) (m 3))"
proof -
  note t = one_record_per_line [of two_on_a_line two_on_a_line]
  have len: "length two_on_a_line = 59" by code_simp
  have ex: "\<exists>k \<le> length two_on_a_line. match_at quoted_triple (drop k two_on_a_line) \<noteq> None"
  proof -
    have "match_at quoted_triple (drop 45 two_on_a_line) \<noteq> None"
      using two_on_a_line_second_match by force
    moreover have "45 \<le> length two_on_a_line" using len by simp
    ultimately show ?thesis by blast
  qed
  have mem: "dep (Some ''org.b'') (Some ''b'') (Some ''2.0'') \<in> set (gradle_line_dependencies two_on_a_line)"
    by (simp add: two_on_a_line_first)
  from t have a: "length (gradle_line_dependencies two_on_a_line) \<le> 1"
    and b: "length (gradle_file_dependencies two_on_a_line) \<le> length (file_lines [] two_on_a_line)"
    by blast+
  from t two_on_a_line_keyword ex have c: "gradle_line_dependencies two_on_a_line \<noteq> []"
    by blast
  from t mem have d: "\<exists>k m n. k \<le> length two_on_a_line
         \<and> match_at quoted_triple (drop k two_on_a_line) = Some (m, n)
         \<and> dep (Some ''org.b'') (Some ''b'') (Some ''2.0'') = dep (m 1) (m 2) (m 3)"
    by blast
  show ?thesis
    using two_on_a_line_first two_on_a_line_keyword two_on_a_line_second_match a b c d
    by (intro conjI)
qed

text \<open>The single-repository parser, which scans the whole text, returns both.\<close>

lemma two_on_a_line_both:
  "gradle_build_dependencies two_on_a_line =
     [dep (Some ''org.b'') (Some ''b'') (Some ''2.0''), dep (Some ''org.c'') (Some ''c'') (Some ''3.0'')]"
  by code_simp

end
